theory Spec2Isabelle
  imports Main "HOL-Library.Word"
begin

section \<open>The dummy teletype (messager/dummyteletype.py)\<close>

text \<open>
  A Baudot code-point is a five-bit value. The console side of the dummy teletype works on
  single characters of an ASCII keyboard.
\<close>

type_synonym code = "5 word"

definition ESC :: char where
  "ESC = CHR 0x1B"

definition CTLC :: char where
  "CTLC = CHR 0x03"

definition BS :: char where
  "BS = CHR 0x08"

definition DEL :: char where
  "DEL = CHR 0x7F"

definition NL :: char where
  "NL = CHR 0x0A"

definition RET :: char where
  "RET = CHR 0x0D"

definition BLANKKEY :: code where
  "BLANKKEY = 0x00"

text \<open>
  The class \<open>baudot.Baudot\<close> is used by the teletype and is not among the sources. Its
  interface, as the teletype calls it, is a parameter of the model: the three constants
  \<open>FIGS\<close>, \<open>LTRS\<close> and \<open>CR\<close>, \<open>chToBaudot\<close> (a character to a pair of an optional
  code-point and an optional shift) and \<open>chToASCII\<close> (a code-point and the current shift
  to an optional character). \<open>None\<close> is Python's \<open>None\<close>.
\<close>

record codec =
  FIGS :: code
  LTRS :: code
  CR :: code
  chToBaudot :: "char \<Rightarrow> code option \<times> code option"
  chToASCII :: "code \<Rightarrow> code option \<Rightarrow> char option"

text \<open>
  What the logger of the port receives: an output line (\<open>flushOutput\<close>), or one of the
  diagnostics of \<open>read\<close> (the note of a control-C is lost with the process).
\<close>

datatype logrec = Output string | BreakNote | CannotType char

text \<open>
  The fields of \<open>Dummyteletype\<close> that \<open>write\<close> and \<open>read\<close> use. The shift states are
  \<open>None\<close> until a shift is seen. The flush timer that \<open>write\<close> re-arms is real time and
  is left out; its only effect is a later call of \<open>flushOutput\<close>.
\<close>

record teletype =
  inshift :: "code option"
  outshift :: "code option"
  outline :: string
  logged :: "logrec list"

definition init :: teletype where
  "init = \<lparr>inshift = None, outshift = None, outline = [], logged = []\<rparr>"

definition flushOutput :: "teletype \<Rightarrow> teletype" where
  "flushOutput s =
     (if length (outline s) > 0
      then s\<lparr>logged := logged s @ [Output (outline s)], outline := []\<rparr>
      else s)"

subsection \<open>write\<close>

fun write_loop :: "codec \<Rightarrow> code list \<Rightarrow> teletype \<Rightarrow> teletype" where
  "write_loop cd [] s = s"
| "write_loop cd (bb # bs) s =
     (if bb = FIGS cd then write_loop cd bs (s\<lparr>outshift := Some bb\<rparr>)
      else if bb = LTRS cd then write_loop cd bs (s\<lparr>outshift := Some bb\<rparr>)
      else (case chToASCII cd bb (outshift s) of
              None \<Rightarrow> write_loop cd bs s
            | Some ch \<Rightarrow>
                if ch = NL \<or> ch = RET then write_loop cd bs (flushOutput s)
                else write_loop cd bs (s\<lparr>outline := outline s @ [ch]\<rparr>)))"

definition Dummyteletype_write :: "codec \<Rightarrow> teletype \<Rightarrow> code list \<Rightarrow> teletype" where
  "Dummyteletype_write cd s bs = (let s1 = write_loop cd bs s in s1\<lparr>inshift := outshift s1\<rparr>)"

subsection \<open>read\<close>

text \<open>
  \<open>intext.encode("ASCII", "replace")\<close> on the text of the keyboard: a character outside
  ASCII becomes a question mark.
\<close>

definition encode_ascii :: "string \<Rightarrow> string" where
  "encode_ascii intext = map (\<lambda>c. if of_char c < (128 :: nat) then c else CHR ''?'') intext"

text \<open>
  \<open>read\<close> either returns the Baudot bytes, or the process ends in \<open>os._exit(0)\<close> on a
  control-C.
\<close>

datatype readresult = Returned "code list" teletype | Exited

text \<open>The special cases of one keyboard character, and the codec for the others.\<close>

definition keycode :: "codec \<Rightarrow> char \<Rightarrow> code option \<times> code option" where
  "keycode cd inbyte =
     (if inbyte = ESC then (Some 0, None)
      else if inbyte = BS \<or> inbyte = DEL then (Some BLANKKEY, None)
      else chToBaudot cd inbyte)"

fun read_loop :: "codec \<Rightarrow> string \<Rightarrow> teletype \<Rightarrow> code list \<Rightarrow> readresult" where
  "read_loop cd [] s baudotread = Returned baudotread s"
| "read_loop cd (c # cs) s baudotread =
     (if c = CTLC then Exited
      else
        let inbyte = (if c = NL then RET else c);
            s0 = (if inbyte = ESC then s\<lparr>logged := logged s @ [BreakNote]\<rparr> else s);
            (bb, shift) = keycode cd inbyte;
            shifting = (shift \<noteq> None \<and> shift \<noteq> inshift s0);
            baudotread1 = (if shifting then baudotread @ [the shift] else baudotread);
            s1 = (if shifting then s0\<lparr>inshift := shift\<rparr> else s0)
        in case bb of
             None \<Rightarrow> read_loop cd cs (s1\<lparr>logged := logged s1 @ [CannotType inbyte]\<rparr>) baudotread1
           | Some b \<Rightarrow> read_loop cd cs s1 (baudotread1 @ [b]))"

definition Dummyteletype_read :: "codec \<Rightarrow> teletype \<Rightarrow> string \<Rightarrow> readresult" where
  "Dummyteletype_read cd s intext =
     (case read_loop cd (encode_ascii intext) (flushOutput s) [] of
        Exited \<Rightarrow> Exited
      | Returned baudotread s1 \<Rightarrow>
          Returned (if length baudotread \<noteq> 1 then baudotread @ [CR cd] else baudotread) s1)"

subsection \<open>A codec to run the model on\<close>

text \<open>
  Modelled from the spec: the codec \<open>baudot.Baudot("USTTY")\<close> itself, which the sources
  do not contain. The spec (4.1, 6) gives its contract: a five-bit code with two
  code-points reserved as shift signals, a character mapped to a code-point and the shift
  it needs, and a code-point decoded under the current shift. The table below is the
  US teletype alphabet; code-points 0, 2, 4 and 8 (null, line feed, space, carriage
  return) read the same in both cases and need no shift.
\<close>

definition USTTYboth :: "(code \<times> char) list" where
  "USTTYboth = [(0, CHR 0x00), (2, CHR 0x0A), (4, CHR '' ''), (8, CHR 0x0D)]"

definition USTTYltrs :: "(code \<times> char) list" where
  "USTTYltrs =
     [(1, CHR ''E''), (3, CHR ''A''), (5, CHR ''S''), (6, CHR ''I''), (7, CHR ''U''),
      (9, CHR ''D''), (10, CHR ''R''), (11, CHR ''J''), (12, CHR ''N''), (13, CHR ''F''),
      (14, CHR ''C''), (15, CHR ''K''), (16, CHR ''T''), (17, CHR ''Z''), (18, CHR ''L''),
      (19, CHR ''W''), (20, CHR ''H''), (21, CHR ''Y''), (22, CHR ''P''), (23, CHR ''Q''),
      (24, CHR ''O''), (25, CHR ''B''), (26, CHR ''G''), (28, CHR ''M''), (29, CHR ''X''),
      (30, CHR ''V'')]"

definition USTTYfigs :: "(code \<times> char) list" where
  "USTTYfigs =
     [(1, CHR ''3''), (3, CHR ''-''), (5, CHR 0x07), (6, CHR ''8''), (7, CHR ''7''),
      (9, CHR ''$''), (10, CHR ''4''), (11, CHR 0x27), (12, CHR '',''), (13, CHR ''!''),
      (14, CHR '':''), (15, CHR ''(''), (16, CHR ''5''), (17, CHR 0x22), (18, CHR '')''),
      (19, CHR ''2''), (20, CHR ''#''), (21, CHR ''6''), (22, CHR ''0''), (23, CHR ''1''),
      (24, CHR ''9''), (25, CHR ''?''), (26, CHR ''&''), (28, CHR ''.''), (29, CHR ''/''),
      (30, CHR '';'')]"

definition rlookup :: "(code \<times> char) list \<Rightarrow> char \<Rightarrow> code option" where
  "rlookup tab c = map_option fst (find (\<lambda>p. snd p = c) tab)"

definition USTTY :: codec where
  "USTTY =
     \<lparr>FIGS = 0x1B, LTRS = 0x1F, CR = 0x08,
      chToBaudot = (\<lambda>c.
        case rlookup USTTYboth c of
          Some b \<Rightarrow> (Some b, None)
        | None \<Rightarrow>
            (case rlookup USTTYltrs c of
               Some b \<Rightarrow> (Some b, Some 0x1F)
             | None \<Rightarrow>
                 (case rlookup USTTYfigs c of
                    Some b \<Rightarrow> (Some b, Some 0x1B)
                  | None \<Rightarrow> (None, None)))),
      chToASCII = (\<lambda>b shift.
        if shift = Some 0x1B then map_of (USTTYboth @ USTTYfigs) b
        else map_of (USTTYboth @ USTTYltrs) b)\<rparr>"

subsection \<open>Notions used in the statements about the teletype\<close>

text \<open>The two shift code-points of a codec.\<close>

definition is_shift :: "codec \<Rightarrow> code \<Rightarrow> bool" where
  "is_shift cd b = (b = FIGS cd \<or> b = LTRS cd)"

text \<open>The character that \<open>read\<close> converts: a newline is taken as a carriage return.\<close>

definition keyof :: "char \<Rightarrow> char" where
  "keyof c = (if c = NL then RET else c)"

text \<open>
  In the words of the spec: the code-points sent for one character whose code and required
  shift are \<open>k\<close>, when the current input shift is \<open>cur\<close>. The shift code-point comes first,
  and only if the required shift is defined and differs from the current one.
\<close>

definition emitted :: "code option \<Rightarrow> code option \<times> code option \<Rightarrow> code list" where
  "emitted cur k =
     (if snd k \<noteq> None \<and> snd k \<noteq> cur then [the (snd k)] else []) @
     (case fst k of None \<Rightarrow> [] | Some b \<Rightarrow> [b])"

text \<open>The teletype after one pass of the loop of \<open>read\<close>, for a character other than control-C.\<close>

definition key_state :: "codec \<Rightarrow> teletype \<Rightarrow> char \<Rightarrow> teletype" where
  "key_state cd s c =
     (let k = keycode cd (keyof c);
          s0 = (if keyof c = ESC then s\<lparr>logged := logged s @ [BreakNote]\<rparr> else s);
          s1 = (if snd k \<noteq> None \<and> snd k \<noteq> inshift s then s0\<lparr>inshift := snd k\<rparr> else s0)
      in case fst k of
           None \<Rightarrow> s1\<lparr>logged := logged s1 @ [CannotType (keyof c)]\<rparr>
         | Some b \<Rightarrow> s1)"

text \<open>
  What the teletype relies on from the codec for one keyboard character: its code-point is
  not a shift code-point, the shift it requires is one of the two shift code-points, and a
  character without a code-point requires no shift.
\<close>

definition sane :: "codec \<Rightarrow> char \<Rightarrow> bool" where
  "sane cd c =
     (case keycode cd (keyof c) of
        (bb, sh) \<Rightarrow>
          (case bb of None \<Rightarrow> sh = None | Some b \<Rightarrow> \<not> is_shift cd b) \<and>
          (case sh of None \<Rightarrow> True | Some x \<Rightarrow> is_shift cd x))"

text \<open>The shift cases that the characters of a text require, in order (those that require one).\<close>

definition cases_of :: "codec \<Rightarrow> string \<Rightarrow> code list" where
  "cases_of cd cs = List.map_filter (\<lambda>c. snd (keycode cd (keyof c))) cs"

text \<open>Every shift code-point of a stream is immediately followed by a code-point that is no shift.\<close>

definition led :: "codec \<Rightarrow> code list \<Rightarrow> bool" where
  "led cd ys =
     (\<forall>i < length ys. is_shift cd (ys ! i) \<longrightarrow> Suc i < length ys \<and> \<not> is_shift cd (ys ! Suc i))"






section \<open>The SMS feed (messager/twiliofeed.py)\<close>

subsection \<open>Requests to the server and its replies\<close>

text \<open>
  \<open>doservercmd\<close> gets the command name and two values, each an integer, a string or
  \<open>None\<close>, and puts a value into the fields of the URL only if it is true in Python's
  sense: the integer 0, the empty string and \<open>None\<close> are left out.
\<close>

datatype pyval = PInt int | PStr string

fun truthy :: "pyval option \<Rightarrow> bool" where
  "truthy None = False"
| "truthy (Some (PInt i)) = (i \<noteq> 0)"
| "truthy (Some (PStr s)) = (s \<noteq> [])"

record request =
  cmd :: string
  arg1 :: "pyval option"
  arg2 :: "pyval option"

definition doservercmd_fields :: "string \<Rightarrow> pyval option \<Rightarrow> pyval option \<Rightarrow> request" where
  "doservercmd_fields c a b =
     \<lparr>cmd = c, arg1 = (if truthy a then a else None), arg2 = (if truthy b then b else None)\<rparr>"

text \<open>
  The reply of the server is read by an external parser. The model takes what
  \<open>handlereply\<close> looks at: the message tags of the reply, each with its child tags, a child
  tag being its name and its \<open>string\<close> (\<open>None\<close> when the tag does not hold a single string).
\<close>

type_synonym tag = "string \<times> string option"

type_synonym messagetag = "tag list"

type_synonym reply = "messagetag list"

text \<open>
  The exceptions of Python that the feed and the weather report raise, with their message
  where one is given.
\<close>

datatype exn =
  EnvironmentError string | AttributeError string | IOError string
  | ValueError | TypeError | KeyError
  | RuntimeError string | UnboundLocalError string | AssertionError

fun exn_text :: "exn \<Rightarrow> string" where
  "exn_text (EnvironmentError m) = m"
| "exn_text (AttributeError m) = m"
| "exn_text (IOError m) = m"
| "exn_text ValueError = []"
| "exn_text TypeError = []"
| "exn_text KeyError = []"
| "exn_text (RuntimeError m) = m"
| "exn_text (UnboundLocalError m) = m"
| "exn_text AssertionError = []"

text \<open>
  One call of \<open>doservercmd\<close> either raises \<open>IOError\<close> (the network) or returns a reply.
  A run of the feed is checked against the list of the server's answers, in the order of
  the calls; when the list is used up the model yields \<open>None\<close>.
\<close>

datatype response = NetFail string | Reply reply

datatype 'a result = Return 'a | Raise exn

subsection \<open>The feed object\<close>

text \<open>
  A message item carries the serial number the server gave it (a string) and the fields of
  the message; the formatting of the header and the body is left out. An error item carries
  its text.
\<close>

record smsitem =
  serial :: string
  content :: "(string \<times> string) list"

datatype feeditem = SMS smsitem | ErrorItem "string option"

text \<open>
  The fields of \<open>Twiliofeed\<close> that the poll cycle uses: the cursor \<open>lastserial\<close>, the queue
  \<open>donequeue\<close> of printed items still to be reported to the server, and the queue
  \<open>inqueue\<close> of the base class, to the printer. \<open>sent\<close> records the requests issued so far,
  oldest first.
\<close>

record feed =
  lastserial :: int
  donequeue :: "smsitem list"
  inqueue :: "feeditem list"
  sent :: "request list"

definition newfeed :: feed where
  "newfeed = \<lparr>lastserial = - 1, donequeue = [], inqueue = [], sent = []\<rparr>"

text \<open>
  Modelled from the spec: \<open>logerror\<close> of the base class \<open>feedmanager.Feed\<close>, which the
  sources do not contain. By the spec (4.3, 7) an error becomes a single error-flagged
  item for the printer.
\<close>

definition logerror :: "string option \<Rightarrow> feed \<Rightarrow> feed" where
  "logerror msg s = s\<lparr>inqueue := inqueue s @ [ErrorItem msg]\<rparr>"

text \<open>\<open>fetcherror\<close> builds the message (and logs a warning).\<close>

definition fetcherror :: "string \<Rightarrow> string \<Rightarrow> string" where
  "fetcherror msgtxt message =
     msgtxt @ (if message \<noteq> [] then ''. ('' @ message @ '')'' else []) @ ''.''"

text \<open>\<open>itemdone\<close>: only an item with a serial number is queued for the server.\<close>

definition itemdone :: "feeditem \<Rightarrow> feed \<Rightarrow> feed" where
  "itemdone item s =
     (case item of
        SMS m \<Rightarrow> if serial m \<noteq> [] then s\<lparr>donequeue := donequeue s @ [m]\<rparr> else s
      | ErrorItem e \<Rightarrow> s)"

subsection \<open>markitemsdone\<close>

definition printed_request :: "smsitem \<Rightarrow> request" where
  "printed_request item =
     doservercmd_fields ''printed'' (Some (PStr (serial item))) (Some (PStr (serial item)))"

text \<open>
  The loop of \<open>markitemsdone\<close> over the queue. It yields the message of the \<open>IOError\<close> if
  one was raised, the queue left, the requests issued and the answers not yet used. On
  \<open>IOError\<close> the item just taken is put back, which is at the end of the queue.
\<close>

fun markloop ::
  "smsitem list \<Rightarrow> response list \<Rightarrow>
     (string option \<times> smsitem list \<times> request list \<times> response list) option" where
  "markloop [] rs = Some (None, [], [], rs)"
| "markloop (item # q) [] = None"
| "markloop (item # q) (NetFail message # rs) =
     Some (Some message, q @ [item], [printed_request item], rs)"
| "markloop (item # q) (Reply r # rs) =
     (case markloop q rs of
        None \<Rightarrow> None
      | Some (e, q', reqs, rs') \<Rightarrow> Some (e, q', printed_request item # reqs, rs'))"

definition markitemsdone :: "response list \<Rightarrow> feed \<Rightarrow> (bool \<times> feed \<times> response list) option" where
  "markitemsdone rs s =
     (case markloop (donequeue s) rs of
        None \<Rightarrow> None
      | Some (None, q, reqs, rs') \<Rightarrow>
          Some (True, s\<lparr>donequeue := q, sent := sent s @ reqs\<rparr>, rs')
      | Some (Some message, q, reqs, rs') \<Rightarrow>
          Some (False,
                logerror (Some (fetcherror ''Network error recording message as printed'' message))
                  (s\<lparr>donequeue := q, sent := sent s @ reqs\<rparr>),
                rs'))"

subsection \<open>handlereply\<close>

text \<open>\<open>strip\<close> and \<open>lower\<close> of Python strings, on ASCII.\<close>

definition is_space :: "char \<Rightarrow> bool" where
  "is_space c = (c \<in> {CHR '' '', CHR 0x09, CHR 0x0A, CHR 0x0B, CHR 0x0C, CHR 0x0D})"

definition strip :: "string \<Rightarrow> string" where
  "strip s = rev (dropWhile is_space (rev (dropWhile is_space s)))"

definition lower :: "string \<Rightarrow> string" where
  "lower s =
     map (\<lambda>c. if (65 :: nat) \<le> of_char c \<and> of_char c \<le> (90 :: nat)
               then char_of (of_char c + (32 :: nat)) else c) s"

text \<open>
  \<open>int\<close> of a string: an optional sign and decimal digits, blanks around them allowed;
  \<open>None\<close> stands for \<open>ValueError\<close>.
\<close>

definition is_digit :: "char \<Rightarrow> bool" where
  "is_digit c = ((48 :: nat) \<le> of_char c \<and> of_char c \<le> (57 :: nat))"

definition digits_value :: "string \<Rightarrow> int" where
  "digits_value ds = foldl (\<lambda>a c. 10 * a + (int (of_char c) - 48)) 0 ds"

definition pyint :: "string \<Rightarrow> int option" where
  "pyint s =
     (let t = strip s;
          neg = (t \<noteq> [] \<and> hd t = CHR ''-'');
          ds = (if t \<noteq> [] \<and> (hd t = CHR ''-'' \<or> hd t = CHR ''+'') then tl t else t)
      in if ds \<noteq> [] \<and> list_all is_digit ds
         then Some (if neg then - digits_value ds else digits_value ds)
         else None)"

text \<open>
  The fields of one message: for every child tag, \<open>tag.string.strip()\<close> (an
  \<open>AttributeError\<close> when the string is \<open>None\<close>), stored under the tag's name if not empty.
  The dictionary is an association list, the latest entry first.
\<close>

fun getfields :: "tag list \<Rightarrow> (string \<times> string) list \<Rightarrow> exn + (string \<times> string) list" where
  "getfields [] flds = Inr flds"
| "getfields ((name, str) # tags) flds =
     (case str of
        None \<Rightarrow> Inl (AttributeError ''NoneType object has no attribute strip'')
      | Some v0 \<Rightarrow>
          (let v = strip v0
           in if v \<noteq> [] then getfields tags ((lower (strip name), v) # flds)
              else getfields tags flds))"

text \<open>
  \<open>processmsg\<close> builds the item and queues it. The time of reception is parsed with
  \<open>strptime\<close>, which raises \<open>TypeError\<close> (not caught there) when the field is missing; a time
  that does not parse is caught and kept as text. The serial number is read with
  \<open>fields['serial']\<close>.
\<close>

definition processmsg :: "(string \<times> string) list \<Rightarrow> feed \<Rightarrow> exn option \<times> feed" where
  "processmsg flds s =
     (case map_of flds ''rcvtime'' of
        None \<Rightarrow> (Some TypeError, s)
      | Some rcvtime \<Rightarrow>
          (case map_of flds ''serial'' of
             None \<Rightarrow> (Some KeyError, s)
           | Some ser \<Rightarrow>
               (None, s\<lparr>inqueue := inqueue s @ [SMS \<lparr>serial = ser, content = flds\<rparr>]\<rparr>)))"

definition handlemsg :: "(string \<times> string) list \<Rightarrow> feed \<Rightarrow> exn option \<times> feed" where
  "handlemsg flds s =
     (let errormsg = (case map_of flds ''errormsg'' of None \<Rightarrow> ''1'' | Some e \<Rightarrow> e)
      in if errormsg \<noteq> [] \<and> errormsg \<noteq> ''0''
         then (None, logerror (map_of flds ''smsbody'') s)
         else processmsg flds s)"

text \<open>
  The loop of \<open>handlereply\<close> over the message tags: the exception that ended it if any,
  \<open>newserial\<close>, and the feed.
\<close>

fun handletags :: "messagetag list \<Rightarrow> int \<Rightarrow> feed \<Rightarrow> exn option \<times> int \<times> feed" where
  "handletags [] newserial s = (None, newserial, s)"
| "handletags (messagetag # ms) newserial s =
     (case getfields messagetag [] of
        Inl e \<Rightarrow> (Some e, newserial, s)
      | Inr flds \<Rightarrow>
          (case map_of flds ''serial'' of
             None \<Rightarrow>
               (Some (EnvironmentError ''Messaging server returned XML without a serial number''),
                newserial, s)
           | Some ser \<Rightarrow>
               (case pyint ser of
                  None \<Rightarrow> (Some ValueError, newserial, s)
                | Some n \<Rightarrow>
                    (case handlemsg flds s of
                       (Some e, s1) \<Rightarrow> (Some e, max newserial n, s1)
                     | (None, s1) \<Rightarrow> handletags ms (max newserial n) s1))))"

text \<open>
  \<open>except (EnvironmentError, AttributeError)\<close>; \<open>IOError\<close> is a subclass of
  \<open>EnvironmentError\<close>.
\<close>

fun format_error :: "exn \<Rightarrow> bool" where
  "format_error (EnvironmentError m) = True"
| "format_error (AttributeError m) = True"
| "format_error (IOError m) = True"
| "format_error ValueError = False"
| "format_error TypeError = False"
| "format_error KeyError = False"
| "format_error (RuntimeError m) = False"
| "format_error (UnboundLocalError m) = False"
| "format_error AssertionError = False"

definition handlereply :: "reply \<Rightarrow> feed \<Rightarrow> int result \<times> feed" where
  "handlereply replyxml s =
     (case handletags replyxml (- 1) s of
        (None, newserial, s1) \<Rightarrow> (Return newserial, s1)
      | (Some e, newserial, s1) \<Rightarrow>
          if format_error e
          then (case handlemsg [(''errormsg'', ''1''), (''smsbody'', exn_text e)] s1 of
                  (None, s2) \<Rightarrow> (Return newserial, s2)
                | (Some e2, s2) \<Rightarrow> (Raise e2, s2))
          else (Raise e, s1))"

subsection \<open>fetchitems\<close>

definition getnext_request :: "int \<Rightarrow> request" where
  "getnext_request cursor = doservercmd_fields ''getnext'' (Some (PInt (cursor + 1))) None"

text \<open>
  The \<open>while True\<close> loop of \<open>fetchitems\<close>: one request and one reply per pass, until a
  reply brings no serial number above the cursor or an exception is raised. It yields the
  exception that left the loop if any, the feed and the answers not yet used.
\<close>

fun fetchloop :: "response list \<Rightarrow> feed \<Rightarrow> (exn option \<times> feed \<times> response list) option" where
  "fetchloop [] s = None"
| "fetchloop (NetFail message # rs) s =
     Some (Some (IOError message), s\<lparr>sent := sent s @ [getnext_request (lastserial s)]\<rparr>, rs)"
| "fetchloop (Reply replyxml # rs) s =
     (case handlereply replyxml (s\<lparr>sent := sent s @ [getnext_request (lastserial s)]\<rparr>) of
        (Raise e, s1) \<Rightarrow> Some (Some e, s1, rs)
      | (Return newserial, s1) \<Rightarrow>
          if newserial \<noteq> 0 \<and> newserial > lastserial s1
          then fetchloop rs (s1\<lparr>lastserial := newserial\<rparr>)
          else Some (None, s1, rs))"

text \<open>
  One poll cycle. \<open>idle\<close> is what \<open>isfeedidle()\<close> of the base class answers in this cycle,
  if it is asked. The two handlers of \<open>fetchitems\<close> turn an \<open>AttributeError\<close> and an
  \<open>IOError\<close> into an error item; any other exception leaves \<open>fetchitems\<close>.
\<close>

definition fetchitems ::
  "bool \<Rightarrow> response list \<Rightarrow> feed \<Rightarrow> (exn option \<times> feed \<times> response list) option" where
  "fetchitems idle rs s =
     (case markitemsdone rs s of
        None \<Rightarrow> None
      | Some (False, s1, rs1) \<Rightarrow> Some (None, s1, rs1)
      | Some (True, s1, rs1) \<Rightarrow>
          (case fetchloop rs1 (if idle then s1\<lparr>lastserial := - 1\<rparr> else s1) of
             None \<Rightarrow> None
           | Some (None, s3, rs3) \<Rightarrow> Some (None, s3, rs3)
           | Some (Some (AttributeError m), s3, rs3) \<Rightarrow>
               Some (None,
                     logerror (Some (fetcherror ''Internal error when fetching message'' m)) s3,
                     rs3)
           | Some (Some (IOError m), s3, rs3) \<Rightarrow>
               Some (None, logerror (Some (fetcherror ''Input or output error'' m)) s3, rs3)
           | Some (Some e, s3, rs3) \<Rightarrow> Some (Some e, s3, rs3)))"

subsection \<open>Notions and sample data used in the statements about the feed\<close>

text \<open>
  A message tag whose parse fails before its serial number is read: a child tag has no
  string, or there is no serial field.
\<close>

definition malformed :: "messagetag \<Rightarrow> bool" where
  "malformed m =
     (case getfields m [] of Inl e \<Rightarrow> True | Inr flds \<Rightarrow> map_of flds ''serial'' = None)"

text \<open>A well-formed message with serial number 5, a message without serial number, a printed item.\<close>

definition msg_serial5 :: messagetag where
  "msg_serial5 =
     [(''serial'', Some ''5''), (''errormsg'', Some ''0''),
      (''rcvtime'', Some ''2015-06-01 12:00:00''), (''smsbody'', Some ''HI'')]"

definition msg_noserial :: messagetag where
  "msg_noserial = [(''errormsg'', Some ''0''), (''smsbody'', Some ''HI'')]"

definition item7 :: smsitem where
  "item7 = \<lparr>serial = ''7'', content = []\<rparr>"

section \<open>The weather report (messager/nwsweatherreport.py)\<close>

subsection \<open>The parse tree and the library functions\<close>

text \<open>
  An element of the parse tree of \<open>xml.etree.ElementTree\<close>: its tag, its attributes,
  its text (\<open>None\<close> when there is none) and its children.
\<close>

datatype element =
  Element (tagname: string) (attrib: "(string \<times> string) list") (etext: "string option")
    (children: "element list")

text \<open>\<open>tree.find(key)\<close> for a plain tag name: the first child with that tag.\<close>

definition element_find :: "element \<Rightarrow> string \<Rightarrow> element option" where
  "element_find tree key = find (\<lambda>e. tagname e = key) (children tree)"

text \<open>
  \<open>tree.iter(key)\<close>: the element itself and all elements below it, in document order,
  those with the given tag.
\<close>

fun element_all :: "element \<Rightarrow> element list" where
  "element_all (Element t a x cs) = Element t a x cs # concat (map element_all cs)"

definition element_iter :: "element \<Rightarrow> string \<Rightarrow> element list" where
  "element_iter tree key = filter (\<lambda>e. tagname e = key) (element_all tree)"

text \<open>
  Two things the module takes from elsewhere are parameters of the model:
  \<open>datetime.strptime\<close> with the format of \<open>parseisotime\<close>, giving the time as a number of
  seconds or \<open>None\<close> for its \<open>ValueError\<close>, and the table \<open>placenames.CODE_STATE\<close>. A
  time is the number of seconds together with the mark of an "aware" time; the range of
  \<open>datetime\<close> is not modelled.
\<close>

record library =
  strptime :: "string \<Rightarrow> int option"
  CODE_STATE :: "string \<Rightarrow> string option"

type_synonym datetime = "int \<times> bool"

definition upper :: "string \<Rightarrow> string" where
  "upper s =
     map (\<lambda>c. if (97 :: nat) \<le> of_char c \<and> of_char c \<le> (122 :: nat)
               then char_of (of_char c - (32 :: nat)) else c) s"

text \<open>
  \<open>re.match(r'([+-])(\d\d):(\d\d)', offsetpart)\<close>: the sign and the two pairs of digits at
  the start of the string.
\<close>

definition match_offset :: "string \<Rightarrow> (char \<times> string \<times> string) option" where
  "match_offset s =
     (case s of
        sg # a # b # c # d # e # rest \<Rightarrow>
          if (sg = CHR ''+'' \<or> sg = CHR ''-'') \<and> is_digit a \<and> is_digit b \<and> c = CHR '':''
             \<and> is_digit d \<and> is_digit e
          then Some (sg, [a, b], [d, e]) else None
      | _ \<Rightarrow> None)"

subsection \<open>parseisotime\<close>

text \<open>
  In the branch for Zulu time the source has the comparison \<open>offset == 0\<close> where an
  assignment was meant; \<open>offset\<close> is a local variable without a value there, and reading it
  raises \<open>UnboundLocalError\<close>.
\<close>

definition parseisotime :: "library \<Rightarrow> string \<Rightarrow> exn + datetime" where
  "parseisotime lib s0 =
     (let s = strip s0;
          datetimepart = take 19 s;
          offsetpart = drop 19 s
      in case strptime lib datetimepart of
           None \<Rightarrow> Inl ValueError
         | Some dt \<Rightarrow>
             if length offsetpart > 0 then
               (if upper offsetpart = ''Z''
                then Inl (UnboundLocalError ''local variable offset referenced before assignment'')
                else
                  (case match_offset offsetpart of
                     None \<Rightarrow> Inl (RuntimeError (''Unable to parse time string: '' @ s))
                   | Some (sign, hours, minutes) \<Rightarrow>
                       (let offset = digits_value hours * 60 + digits_value minutes;
                            offset1 = (if sign = CHR ''-'' then - offset else offset)
                        in Inr (dt - 60 * offset1, True))))
             else Inr (dt, False))"

subsection \<open>The forecast object and its parser\<close>

record nwsxml =
  err :: "string option"
  location :: "string option"
  creationtime :: "datetime option"
  latitude :: "string option"
  longitude :: "string option"
  perioditems :: "((datetime \<times> string option) \<times> string) list"

definition new_nwsxml :: nwsxml where
  "new_nwsxml =
     \<lparr>err = None, location = None, creationtime = None, latitude = None, longitude = None,
      perioditems = []\<rparr>"

text \<open>\<open>_find\<close>: the item at the end of a path of tags; the path must not be empty.\<close>

fun nwsxml_find :: "element \<Rightarrow> string list \<Rightarrow> exn + element" where
  "nwsxml_find tree [] = Inl AssertionError"
| "nwsxml_find tree (key # keys) =
     (case element_find tree key of
        None \<Rightarrow>
          Inl (RuntimeError
                 (''NWS weather report XML format unexpected. Did not find '' @ key
                    @ '' inside XML tag '' @ tagname tree))
      | Some item \<Rightarrow> if keys = [] then Inr item else nwsxml_find item keys)"

text \<open>
  \<open>_parseheader\<close>. The test \<open>dwmlitem is None\<close> of the source cannot succeed, since \<open>_find\<close>
  returns an item or raises; it is left out. The city name and the state are joined with
  \<open>+\<close>, which raises \<open>TypeError\<close> when the city item has no state and the table has none
  for it.
\<close>

definition parseheader :: "library \<Rightarrow> element \<Rightarrow> nwsxml \<Rightarrow> exn option \<times> nwsxml" where
  "parseheader lib tree s =
     (case (if tagname tree = ''dwml'' then Inr tree else nwsxml_find tree [''dwml'']) of
        Inl e \<Rightarrow> (Some e, s)
      | Inr dwmlitem \<Rightarrow>
     (case nwsxml_find dwmlitem [''head'', ''product''] of
        Inl e \<Rightarrow> (Some e, s)
      | Inr productitem \<Rightarrow>
     (case nwsxml_find productitem [''creation-date''] of
        Inl e \<Rightarrow> (Some e, s)
      | Inr creationitem \<Rightarrow>
     (case etext creationitem of
        None \<Rightarrow> (Some (RuntimeError ''No forecast creation date/time''), s)
      | Some creation \<Rightarrow>
     (case parseisotime lib (strip creation) of
        Inl e \<Rightarrow> (Some e, s)
      | Inr ctime \<Rightarrow>
     (let s1 = s\<lparr>creationtime := Some ctime\<rparr> in
      case nwsxml_find dwmlitem [''data''] of
        Inl e \<Rightarrow> (Some e, s1)
      | Inr dataitem \<Rightarrow>
     (if map_of (attrib dataitem) ''type'' \<noteq> Some ''forecast''
      then (Some (RuntimeError ''No forecast data item''), s1)
      else
     (case nwsxml_find dataitem [''location''] of
        Inl e \<Rightarrow> (Some e, s1)
      | Inr locitem \<Rightarrow>
     (case nwsxml_find locitem [''point''] of
        Inl e \<Rightarrow> (Some e, s1)
      | Inr pointitem \<Rightarrow>
     (let s2 = s1\<lparr>latitude := map_of (attrib pointitem) ''latitude'',
                  longitude := map_of (attrib pointitem) ''longitude''\<rparr> in
      case element_find locitem ''city'' of
        Some cityitem \<Rightarrow>
          (case etext cityitem of
             None \<Rightarrow> (Some (RuntimeError ''No city name''), s2)
           | Some city \<Rightarrow>
               (let state0 = map_of (attrib cityitem) ''state'';
                    state = (case state0 of
                               None \<Rightarrow> None
                             | Some st \<Rightarrow>
                                 (case CODE_STATE lib st of None \<Rightarrow> Some st | Some full \<Rightarrow> Some full))
                in case state of
                     None \<Rightarrow> (Some TypeError, s2)
                   | Some st \<Rightarrow> (None, s2\<lparr>location := Some (city @ '', '' @ st)\<rparr>)))
      | None \<Rightarrow>
          (case nwsxml_find locitem [''area-description''] of
             Inl e \<Rightarrow> (Some e, s2)
           | Inr areaitem \<Rightarrow>
               (case etext areaitem of
                  None \<Rightarrow> (Some (RuntimeError ''No area description''), s2)
                | Some area \<Rightarrow> (None, s2\<lparr>location := Some area\<rparr>)))))))))))))"

text \<open>
  \<open>_parsetimeitems\<close>: the list of (time, period name) of a time layout, or \<open>None\<close> when a
  time is given as NA.
\<close>

fun parsetimeitems ::
  "library \<Rightarrow> element list \<Rightarrow> (datetime \<times> string option) list \<Rightarrow>
     exn + (datetime \<times> string option) list option" where
  "parsetimeitems lib [] timeitemlist = Inr (Some timeitemlist)"
| "parsetimeitems lib (timeitem # timeitems) timeitemlist =
     (case etext timeitem of
        None \<Rightarrow> Inl (RuntimeError ''No period date/time in time item'')
      | Some periodtime \<Rightarrow>
          if strip periodtime = ''NA'' then Inr None
          else (case parseisotime lib (strip periodtime) of
                  Inl e \<Rightarrow> Inl e
                | Inr t \<Rightarrow>
                    parsetimeitems lib timeitems
                      (timeitemlist @ [(t, map_of (attrib timeitem) ''period-name'')])))"

text \<open>\<open>_parsetimelayouts\<close>: the dictionary of the time layouts by key, the latest entry first.\<close>

fun parsetimelayouts ::
  "library \<Rightarrow> element list \<Rightarrow> (string \<times> (datetime \<times> string option) list) list \<Rightarrow>
     exn + (string \<times> (datetime \<times> string option) list) list" where
  "parsetimelayouts lib [] timelayouts = Inr timelayouts"
| "parsetimelayouts lib (timelayouttree # trees) timelayouts =
     (case nwsxml_find timelayouttree [''layout-key''] of
        Inl e \<Rightarrow> Inl e
      | Inr keytag \<Rightarrow>
          (case etext keytag of
             None \<Rightarrow> Inl (RuntimeError ''No time layout key found in time layout'')
           | Some key0 \<Rightarrow>
               (case parsetimeitems lib (element_iter timelayouttree ''start-valid-time'') [] of
                  Inl e \<Rightarrow> Inl e
                | Inr None \<Rightarrow> parsetimelayouts lib trees timelayouts
                | Inr (Some timeitemlist) \<Rightarrow>
                    if timeitemlist \<noteq> []
                    then parsetimelayouts lib trees ((strip key0, timeitemlist) # timelayouts)
                    else parsetimelayouts lib trees timelayouts)))"

text \<open>The texts of one worded forecast; \<open>text.strip()\<close> raises on an item without text.\<close>

fun forecasttexts :: "element list \<Rightarrow> exn + string list" where
  "forecasttexts [] = Inr []"
| "forecasttexts (item # items) =
     (case etext item of
        None \<Rightarrow> Inl (AttributeError ''NoneType object has no attribute strip'')
      | Some t \<Rightarrow>
          (case forecasttexts items of Inl e \<Rightarrow> Inl e | Inr ts \<Rightarrow> Inr (strip t # ts)))"

text \<open>\<open>_parseforecasts\<close>: every worded forecast is paired with the times of its layout.\<close>

fun parseforecasts ::
  "element list \<Rightarrow> (string \<times> (datetime \<times> string option) list) list \<Rightarrow> nwsxml \<Rightarrow>
     exn option \<times> nwsxml" where
  "parseforecasts [] timelayouts s = (None, s)"
| "parseforecasts (wordedforecast # rest) timelayouts s =
     (case map_of (attrib wordedforecast) ''time-layout'' of
        None \<Rightarrow> (Some (RuntimeError ''Forecast time layout key not found in data''), s)
      | Some timelayoutkey \<Rightarrow>
          (case forecasttexts (element_iter wordedforecast ''text'') of
             Inl e \<Rightarrow> (Some e, s)
           | Inr texts \<Rightarrow>
               (case map_of timelayouts (strip timelayoutkey) of
                  None \<Rightarrow>
                    (Some (RuntimeError (''Time layout key '' @ strip timelayoutkey
                                           @ '' not found in time layouts'')), s)
                | Some timelayout \<Rightarrow>
                    if length timelayout \<noteq> length texts
                    then (Some (RuntimeError (''Time layout key '' @ strip timelayoutkey
                                                @ '' has the wrong number of forecasts'')), s)
                    else parseforecasts rest timelayouts
                           (s\<lparr>perioditems := perioditems s @ zip timelayout texts\<rparr>))))"

text \<open>
  \<open>except (EnvironmentError, RuntimeError, xml.etree.ElementTree.ParseError)\<close>: the
  exceptions that \<open>parse\<close> turns into the text of \<open>err\<close>. Any other exception leaves
  \<open>parse\<close>.
\<close>

fun parse_catches :: "exn \<Rightarrow> bool" where
  "parse_catches (EnvironmentError m) = True"
| "parse_catches (IOError m) = True"
| "parse_catches (RuntimeError m) = True"
| "parse_catches (AttributeError m) = False"
| "parse_catches ValueError = False"
| "parse_catches TypeError = False"
| "parse_catches KeyError = False"
| "parse_catches (UnboundLocalError m) = False"
| "parse_catches AssertionError = False"

definition parse_except :: "exn \<Rightarrow> nwsxml \<Rightarrow> exn option \<times> nwsxml" where
  "parse_except e s =
     (if parse_catches e
      then (None, s\<lparr>err := Some (''Unable to interpret weather data: '' @ exn_text e @ ''.'')\<rparr>)
      else (Some e, s))"

text \<open>
  \<open>parse\<close>: the exception that leaves it, if any, and the forecast object.
\<close>

definition nwsxml_parse :: "library \<Rightarrow> element \<Rightarrow> nwsxml \<Rightarrow> exn option \<times> nwsxml" where
  "nwsxml_parse lib tree s =
     (case parseheader lib tree s of
        (Some e, s1) \<Rightarrow> parse_except e s1
      | (None, s1) \<Rightarrow>
          (case parsetimelayouts lib (element_iter tree ''time-layout'') [] of
             Inl e \<Rightarrow> parse_except e s1
           | Inr timelayouts \<Rightarrow>
               (case parseforecasts (element_iter tree ''wordedForecast'') timelayouts s1 of
                  (Some e, s2) \<Rightarrow> parse_except e s2
                | (None, s2) \<Rightarrow> (None, s2))))"

text \<open>The first statement of \<open>asString\<close>: an error is rendered as one line.\<close>

definition asString_error :: "nwsxml \<Rightarrow> string option" where
  "asString_error s =
     (case err s of
        None \<Rightarrow> None
      | Some e \<Rightarrow> if e \<noteq> [] then Some (''ERROR: '' @ e) else None)"

subsection \<open>Sample reports\<close>

text \<open>
  A report whose creation date is given in Zulu time, and a document that is no weather
  report.
\<close>

definition zulu_report :: element where
  "zulu_report =
     Element ''dwml'' [] None
       [Element ''head'' [] None
          [Element ''product'' [] None
             [Element ''creation-date'' [] (Some ''2015-06-01T12:00:00Z'') []]]]"

definition html_page :: element where
  "html_page = Element ''html'' [] None [Element ''title'' [] (Some ''Not found'') []]"

section \<open>Properties of the dummy teletype\<close>

subsection \<open>The loop of read, one character at a time\<close>

lemma read_loop_step:
  "c \<noteq> CTLC \<Longrightarrow>
     read_loop cd (c # cs) s acc
       = read_loop cd cs (key_state cd s c) (acc @ emitted (inshift s) (keycode cd (keyof c)))"
  by (cases "keycode cd (keyof c)")
     (auto simp: emitted_def keyof_def key_state_def Let_def split: option.splits)

lemma key_state_fields:
  "inshift (key_state cd s c) = (if snd (keycode cd (keyof c)) = None then inshift s
                                 else snd (keycode cd (keyof c)))"
  "outshift (key_state cd s c) = outshift s"
  "outline (key_state cd s c) = outline s"
  "keyof c \<noteq> ESC \<Longrightarrow> fst (keycode cd (keyof c)) \<noteq> None \<Longrightarrow> logged (key_state cd s c) = logged s"
  by (auto simp: key_state_def Let_def split: option.splits)

lemma read_loop_Cons:
  assumes "c \<noteq> CTLC"
  shows "\<exists>s1. read_loop cd (c # cs) s acc
            = read_loop cd cs s1 (acc @ emitted (inshift s) (keycode cd (keyof c)))
         \<and> inshift s1 = (if snd (keycode cd (keyof c)) = None then inshift s
                          else snd (keycode cd (keyof c)))"
  using read_loop_step [OF assms] key_state_fields(1) by blast

lemma read_loop_returns:
  "CTLC \<notin> set cs \<Longrightarrow> \<exists>bs s1. read_loop cd cs s acc = Returned bs s1"
proof (induction cs arbitrary: s acc)
  case Nil
  then show ?case by simp
next
  case (Cons c cs)
  then have c: "c \<noteq> CTLC" and cs: "CTLC \<notin> set cs" by auto
  from read_loop_Cons [OF c, of cd cs s acc] obtain s1 where
    "read_loop cd (c # cs) s acc = read_loop cd cs s1 (acc @ emitted (inshift s) (keycode cd (keyof c)))"
    by blast
  with Cons.IH [OF cs] show ?case by simp
qed

lemma encode_ascii_CTLC: "CTLC \<in> set (encode_ascii text) \<longleftrightarrow> CTLC \<in> set text"
  by (auto simp: encode_ascii_def CTLC_def)

lemma read_loop_append:
  "read_loop cd (xs @ ys) s acc =
     (case read_loop cd xs s acc of Exited \<Rightarrow> Exited | Returned as s1 \<Rightarrow> read_loop cd ys s1 as)"
proof (induction xs arbitrary: s acc)
  case Nil
  show ?case by simp
next
  case (Cons c xs)
  show ?case
  proof (cases "c = CTLC")
    case True
    then show ?thesis by simp
  next
    case False
    show ?thesis
      by (simp only: append_Cons read_loop_step [OF False] Cons.IH)
  qed
qed

lemma flushOutput_fields:
  "inshift (flushOutput s) = inshift s" "outshift (flushOutput s) = outshift s"
  by (simp_all add: flushOutput_def)

lemmas tty_defs = Dummyteletype_read_def Dummyteletype_write_def encode_ascii_def flushOutput_def
  init_def keycode_def USTTY_def rlookup_def USTTYboth_def USTTYltrs_def USTTYfigs_def ESC_def
  BS_def DEL_def CTLC_def NL_def RET_def BLANKKEY_def

lemmas tty_defs2 = sane_def is_shift_def keyof_def cases_of_def emitted_def


subsection \<open>The line end that read appends\<close>

text \<open>
  C9. A call of \<open>read\<close> that meets no control-C returns, and the sequence it returns is the
  sequence assembled from the keyboard text with the code-point \<open>CR\<close> appended if and only
  if the assembled sequence is not exactly one code-point long: a single code-point is
  returned as it is, an empty or a longer sequence gets the trailing \<open>CR\<close>.
\<close>

theorem read_appends_CR:
  "CTLC \<notin> set text \<Longrightarrow>
     \<exists>as s1. read_loop cd (encode_ascii text) (flushOutput s) [] = Returned as s1
       \<and> Dummyteletype_read cd s text = Returned (if length as = 1 then as else as @ [CR cd]) s1"
proof -
  assume "CTLC \<notin> set text"
  then have "CTLC \<notin> set (encode_ascii text)" by (simp add: encode_ascii_CTLC)
  from read_loop_returns [OF this] obtain as s1 where
    "read_loop cd (encode_ascii text) (flushOutput s) [] = Returned as s1" by blast
  then show ?thesis by (auto simp: Dummyteletype_read_def)
qed

text \<open>
  On a fresh teletype the letter A needs a shift, so two code-points are assembled and \<open>CR\<close>
  is appended; once the input shift is LTRS the same key gives one code-point and no \<open>CR\<close>.
\<close>

theorem read_appends_CR_witness:
  "CTLC \<notin> set ''A'' \<and>
   (\<exists>as s1. read_loop USTTY (encode_ascii ''A'') (flushOutput init) [] = Returned as s1
       \<and> Dummyteletype_read USTTY init ''A'' = Returned (if length as = 1 then as else as @ [CR USTTY]) s1)
   \<and> Dummyteletype_read USTTY init ''A'' = Returned [0x1F, 3, 8] (init\<lparr>inshift := Some 0x1F\<rparr>)
   \<and> Dummyteletype_read USTTY (init\<lparr>inshift := Some 0x1F\<rparr>) ''A'' = Returned [3] (init\<lparr>inshift := Some 0x1F\<rparr>)"
proof -
  have h: "CTLC \<notin> set ''A''" by (simp add: CTLC_def)
  have r1: "Dummyteletype_read USTTY init ''A'' = Returned [0x1F, 3, 8] (init\<lparr>inshift := Some 0x1F\<rparr>)"
    by (simp add: tty_defs)
  have r2: "Dummyteletype_read USTTY (init\<lparr>inshift := Some 0x1F\<rparr>) ''A'' = Returned [3] (init\<lparr>inshift := Some 0x1F\<rparr>)"
    by (simp add: tty_defs)
  show ?thesis using h read_appends_CR [OF h, of USTTY init] r1 r2 by simp
qed

subsection \<open>The blank key\<close>

text \<open>
  C8. For a backspace or a DEL key, \<open>read\<close> returns the single code-point \<open>BLANKKEY\<close> and
  no shift code-point, whatever the current input shift, and the input shift is unchanged.
  The constant is 0x00, the code-point with no bit set, and not the code-point with all five
  bits set (0x1F) that the comment at its definition announces.
\<close>

theorem backspace_reads_blank:
  "Dummyteletype_read cd s [BS] = Returned [BLANKKEY] (flushOutput s)
   \<and> Dummyteletype_read cd s [DEL] = Returned [BLANKKEY] (flushOutput s)
   \<and> emitted cur (keycode cd (keyof BS)) = [BLANKKEY]
   \<and> emitted cur (keycode cd (keyof DEL)) = [BLANKKEY]
   \<and> BLANKKEY = 0x00 \<and> BLANKKEY \<noteq> 0x1F \<and> (0x1F :: code) = - 1 \<and> (\<forall>n. \<not> bit BLANKKEY n)"
  by (simp add: Dummyteletype_read_def encode_ascii_def keycode_def keyof_def emitted_def
      ESC_def BS_def DEL_def CTLC_def NL_def RET_def BLANKKEY_def)

subsection \<open>Shift code-points in the output of read\<close>

lemma led_Nil: "led cd []"
  by (simp add: led_def)

lemma led_code: "\<not> is_shift cd b \<Longrightarrow> led cd ys \<Longrightarrow> led cd (b # ys)"
  unfolding led_def
proof (intro allI impI)
  fix i
  assume b: "\<not> is_shift cd b" and ys: "\<forall>i<length ys. is_shift cd (ys ! i) \<longrightarrow> Suc i < length ys \<and> \<not> is_shift cd (ys ! Suc i)"
    and i: "i < length (b # ys)" and sh: "is_shift cd ((b # ys) ! i)"
  show "Suc i < length (b # ys) \<and> \<not> is_shift cd ((b # ys) ! Suc i)"
  proof (cases i)
    case 0
    with b sh show ?thesis by simp
  next
    case (Suc j)
    with i sh ys show ?thesis by simp
  qed
qed

lemma led_shift: "\<not> is_shift cd b \<Longrightarrow> led cd ys \<Longrightarrow> led cd (x # b # ys)"
  unfolding led_def
proof (intro allI impI)
  fix i
  assume b: "\<not> is_shift cd b" and ys: "\<forall>i<length ys. is_shift cd (ys ! i) \<longrightarrow> Suc i < length ys \<and> \<not> is_shift cd (ys ! Suc i)"
    and i: "i < length (x # b # ys)" and sh: "is_shift cd ((x # b # ys) ! i)"
  show "Suc i < length (x # b # ys) \<and> \<not> is_shift cd ((x # b # ys) ! Suc i)"
  proof (cases i)
    case 0
    with b show ?thesis by simp
  next
    case (Suc j)
    show ?thesis
    proof (cases j)
      case 0
      with Suc b sh show ?thesis by simp
    next
      case (Suc k)
      with \<open>i = Suc j\<close> i sh ys show ?thesis by simp
    qed
  qed
qed

lemma led_snoc: "led cd ys \<Longrightarrow> \<not> is_shift cd b \<Longrightarrow> led cd (ys @ [b])"
  unfolding led_def
proof (intro allI impI)
  fix i
  assume ys: "\<forall>i<length ys. is_shift cd (ys ! i) \<longrightarrow> Suc i < length ys \<and> \<not> is_shift cd (ys ! Suc i)"
    and b: "\<not> is_shift cd b" and i: "i < length (ys @ [b])" and sh: "is_shift cd ((ys @ [b]) ! i)"
  from i b sh have "i < length ys" by (cases "i = length ys") auto
  with ys sh have "Suc i < length ys \<and> \<not> is_shift cd (ys ! Suc i)" by (simp add: nth_append)
  then show "Suc i < length (ys @ [b]) \<and> \<not> is_shift cd ((ys @ [b]) ! Suc i)"
    by (simp add: nth_append)
qed

lemma remdups_adj_hd: "remdups_adj (x # xs) = x # tl (remdups_adj (x # xs))"
  by (cases xs) auto

lemma emitted_cases:
  assumes "sane cd c"
  shows "(snd (keycode cd (keyof c)) = None \<and> (emitted cur (keycode cd (keyof c)) = [] \<or>
            (\<exists>b. emitted cur (keycode cd (keyof c)) = [b] \<and> \<not> is_shift cd b)))
       \<or> (\<exists>x b. snd (keycode cd (keyof c)) = Some x \<and> is_shift cd x \<and> \<not> is_shift cd b \<and>
            emitted cur (keycode cd (keyof c)) = (if Some x = cur then [b] else [x, b]))"
  using assms
  by (cases "keycode cd (keyof c)") (auto simp: sane_def emitted_def split: option.splits)

lemma read_loop_shifts:
  assumes "read_loop cd cs s acc = Returned bs s'" and "\<forall>c \<in> set cs. sane cd c"
  shows "\<exists>ys. bs = acc @ ys
           \<and> map Some (filter (is_shift cd) ys) = tl (remdups_adj (inshift s # map Some (cases_of cd cs)))
           \<and> led cd ys"
  using assms
proof (induction cs arbitrary: s acc)
  case Nil
  then show ?case by (simp add: cases_of_def led_Nil)
next
  case (Cons c cs)
  from Cons.prems(1) have c: "c \<noteq> CTLC" by (auto split: if_splits)
  let ?k = "keycode cd (keyof c)"
  from read_loop_Cons [OF c, of cd cs s acc] obtain s1 where
    step: "read_loop cd (c # cs) s acc = read_loop cd cs s1 (acc @ emitted (inshift s) ?k)"
    and ins: "inshift s1 = (if snd ?k = None then inshift s else snd ?k)"
    by blast
  from Cons.prems have sane: "sane cd c" and rest: "\<forall>c \<in> set cs. sane cd c" by auto
  from step Cons.prems(1) have "read_loop cd cs s1 (acc @ emitted (inshift s) ?k) = Returned bs s'"
    by simp
  from Cons.IH [OF this rest] obtain ys where
    bs: "bs = (acc @ emitted (inshift s) ?k) @ ys"
    and sh: "map Some (filter (is_shift cd) ys) = tl (remdups_adj (inshift s1 # map Some (cases_of cd cs)))"
    and led: "led cd ys"
    by blast
  from emitted_cases [OF sane, of "inshift s"]
  show ?case
  proof (elim disjE conjE exE)
    assume n: "snd ?k = None" and e: "emitted (inshift s) ?k = []"
    then have "cases_of cd (c # cs) = cases_of cd cs" by (simp add: cases_of_def)
    with n e bs sh led ins show ?thesis by simp
  next
    fix b
    assume n: "snd ?k = None" and e: "emitted (inshift s) ?k = [b]" and b: "\<not> is_shift cd b"
    then have "cases_of cd (c # cs) = cases_of cd cs" by (simp add: cases_of_def)
    with n e b bs sh led ins led_code [OF b led] show ?thesis by simp
  next
    fix x b
    assume k: "snd ?k = Some x" and x: "is_shift cd x" and b: "\<not> is_shift cd b"
      and e: "emitted (inshift s) ?k = (if Some x = inshift s then [b] else [x, b])"
    from k have cs: "cases_of cd (c # cs) = x # cases_of cd cs"
      by (simp add: cases_of_def)
    from k ins have ins1: "inshift s1 = Some x" by simp
    show ?thesis
    proof (cases "Some x = inshift s")
      case True
      with e bs sh cs ins1 b led_code [OF b led] show ?thesis by simp
    next
      case False
      have "tl (remdups_adj (inshift s # Some x # map Some (cases_of cd cs)))
            = Some x # tl (remdups_adj (Some x # map Some (cases_of cd cs)))"
        using False remdups_adj_hd [of "Some x" "map Some (cases_of cd cs)"] by auto
      with False e bs sh cs ins1 x b led_shift [OF b led, of x] show ?thesis by simp
    qed
  qed
qed

text \<open>
  C2. In the code-point sequence that one call of \<open>read\<close> returns, under a codec that is
  sane on the characters typed: (1) for every character of the text, with the teletype as
  the characters before it left it, the code-points sent for it are a shift code-point
  followed by its code-point if its required shift is defined and differs from the current
  input shift, and its code-point alone otherwise (\<open>emitted\<close>); (2) the shift code-points
  of the whole sequence are the required cases in order with repetitions of the same case
  dropped, the first one too when it is the input shift at the start: one shift per change
  of case, not one per character; (3) every shift code-point is immediately followed by a
  code-point that is no shift.
\<close>

theorem read_shift_iff_case_change:
  assumes "Dummyteletype_read cd s text = Returned bs s'"
    and "\<forall>c \<in> set (encode_ascii text). sane cd c"
    and "\<not> is_shift cd (CR cd)"
  shows "(\<forall>pre c post. encode_ascii text = pre @ c # post \<longrightarrow>
            (\<exists>as s1 s2. read_loop cd pre (flushOutput s) [] = Returned as s1
               \<and> read_loop cd (pre @ [c]) (flushOutput s) []
                   = Returned (as @ emitted (inshift s1) (keycode cd (keyof c))) s2))
       \<and> map Some (filter (is_shift cd) bs)
           = tl (remdups_adj (inshift s # map Some (cases_of cd (encode_ascii text))))
       \<and> led cd bs"
proof -
  let ?t = "encode_ascii text"
  from assms(1) obtain as where
    loop: "read_loop cd ?t (flushOutput s) [] = Returned as s'"
    and bs: "bs = (if length as \<noteq> 1 then as @ [CR cd] else as)"
    by (auto simp: Dummyteletype_read_def split: readresult.splits)
  from read_loop_shifts [OF loop assms(2)]
  have sh: "map Some (filter (is_shift cd) as)
              = tl (remdups_adj (inshift s # map Some (cases_of cd ?t)))"
    and led: "led cd as"
    by (auto simp: flushOutput_fields)
  have local: "\<exists>as s1 s2. read_loop cd pre (flushOutput s) [] = Returned as s1
               \<and> read_loop cd (pre @ [c]) (flushOutput s) []
                   = Returned (as @ emitted (inshift s1) (keycode cd (keyof c))) s2"
    if split: "?t = pre @ c # post" for pre c post
  proof -
    from loop split have "read_loop cd (pre @ c # post) (flushOutput s) [] = Returned as s'"
      by simp
    then obtain as1 s1 where
      pre: "read_loop cd pre (flushOutput s) [] = Returned as1 s1"
      and rest: "read_loop cd (c # post) s1 as1 = Returned as s'"
      by (auto simp: read_loop_append split: readresult.splits)
    from rest have "c \<noteq> CTLC" by (auto split: if_splits)
    then have "read_loop cd [c] s1 as1
                 = Returned (as1 @ emitted (inshift s1) (keycode cd (keyof c))) (key_state cd s1 c)"
      using read_loop_step [of c cd "[]" s1 as1] by simp
    with pre show ?thesis by (simp add: read_loop_append)
  qed
  from sh led assms(3) bs have "map Some (filter (is_shift cd) bs)
           = tl (remdups_adj (inshift s # map Some (cases_of cd ?t))) \<and> led cd bs"
    by (auto simp: led_snoc)
  with local show ?thesis by blast
qed

text \<open>
  The text AB12A on a fresh teletype: five characters that require a case, three changes of
  case, three shift code-points.
\<close>

theorem read_shift_iff_case_change_witness:
  "Dummyteletype_read USTTY init ''AB12A''
     = Returned [0x1F, 3, 25, 0x1B, 23, 19, 0x1F, 3, 8] (init\<lparr>inshift := Some 0x1F\<rparr>)
   \<and> cases_of USTTY ''AB12A'' = [0x1F, 0x1F, 0x1B, 0x1B, 0x1F]
   \<and> filter (is_shift USTTY) [0x1F, 3, 25, 0x1B, 23, 19, 0x1F, 3, 8] = [0x1F, 0x1B, 0x1F]
   \<and> led USTTY [0x1F, 3, 25, 0x1B, 23, 19, 0x1F, 3, 8]
   \<and> (\<exists>as s1 s2. read_loop USTTY ''AB'' (flushOutput init) [] = Returned as s1
         \<and> read_loop USTTY ''AB1'' (flushOutput init) []
             = Returned (as @ emitted (inshift s1) (keycode USTTY (keyof CHR ''1''))) s2)"
proof -
  have r: "Dummyteletype_read USTTY init ''AB12A''
     = Returned [0x1F, 3, 25, 0x1B, 23, 19, 0x1F, 3, 8] (init\<lparr>inshift := Some 0x1F\<rparr>)"
    by (simp add: tty_defs)
  have e: "encode_ascii ''AB12A'' = ''AB12A''"
    by (simp add: encode_ascii_def)
  have s: "\<forall>c \<in> set (encode_ascii ''AB12A''). sane USTTY c"
    by (simp add: tty_defs tty_defs2)
  have c: "\<not> is_shift USTTY (CR USTTY)"
    by (simp add: tty_defs tty_defs2)
  have k: "cases_of USTTY ''AB12A'' = [0x1F, 0x1F, 0x1B, 0x1B, 0x1F]"
    by (simp add: tty_defs tty_defs2)
  have sp: "encode_ascii ''AB12A'' = ''AB'' @ CHR ''1'' # ''2A''"
    by (simp add: e)
  note t = read_shift_iff_case_change [OF r s c]
  from t have "led USTTY [0x1F, 3, 25, 0x1B, 23, 19, 0x1F, 3, 8]" by blast
  moreover from t have "map Some (filter (is_shift USTTY) [0x1F, 3, 25, 0x1B, 23, 19, 0x1F, 3, 8])
           = tl (remdups_adj (inshift init # map Some (cases_of USTTY (encode_ascii ''AB12A''))))"
    by blast
  then have "filter (is_shift USTTY) [0x1F, 3, 25, 0x1B, 23, 19, 0x1F, 3, 8] = [0x1F, 0x1B, 0x1F]"
    by (simp add: e k init_def tty_defs2 USTTY_def)
  moreover from t sp have "\<exists>as s1 s2. read_loop USTTY ''AB'' (flushOutput init) [] = Returned as s1
         \<and> read_loop USTTY (''AB'' @ [CHR ''1'']) (flushOutput init) []
             = Returned (as @ emitted (inshift s1) (keycode USTTY (keyof CHR ''1''))) s2"
    by blast
  ultimately show ?thesis using r k by simp
qed

subsection \<open>write keeps the two shift states equal\<close>

lemma outshift_write_loop:
  "outshift (write_loop cd bs s)
     = (if filter (is_shift cd) bs = [] then outshift s else Some (last (filter (is_shift cd) bs)))"
  by (induction bs arbitrary: s)
     (auto simp: is_shift_def flushOutput_fields split: option.splits)

text \<open>
  C10. After every call of \<open>write\<close> the input shift equals the output shift, and this
  common value is the last shift code-point among the bytes written, or the output shift
  before the call if there was none: \<open>write\<close> overwrites the input shift.
\<close>

theorem write_syncs_shift:
  "inshift (Dummyteletype_write cd s bs) = outshift (Dummyteletype_write cd s bs)
   \<and> outshift (Dummyteletype_write cd s bs)
       = (if filter (is_shift cd) bs = [] then outshift s
          else Some (last (filter (is_shift cd) bs)))"
proof -
  let ?s1 = "write_loop cd bs s"
  have w: "Dummyteletype_write cd s bs = ?s1\<lparr>inshift := outshift ?s1\<rparr>"
    by (simp add: Dummyteletype_write_def Let_def)
  have sync: "inshift (?s1\<lparr>inshift := outshift ?s1\<rparr>) = outshift (?s1\<lparr>inshift := outshift ?s1\<rparr>)"
    by simp
  have out: "outshift (?s1\<lparr>inshift := outshift ?s1\<rparr>)
       = (if filter (is_shift cd) bs = [] then outshift s
          else Some (last (filter (is_shift cd) bs)))"
    by (simp add: outshift_write_loop)
  from sync out show ?thesis unfolding w by (rule conjI)
qed

text \<open>
  So a write changes what the next read sends: with both shifts at LTRS the key A is one
  code-point, and after the shift FIGS was written the same key is sent with a shift.
\<close>

lemma write_changes_next_read:
  "Dummyteletype_read USTTY (init\<lparr>inshift := Some 0x1F, outshift := Some 0x1F\<rparr>) ''A''
     = Returned [3] (init\<lparr>inshift := Some 0x1F, outshift := Some 0x1F\<rparr>)
   \<and> Dummyteletype_read USTTY
         (Dummyteletype_write USTTY (init\<lparr>inshift := Some 0x1F, outshift := Some 0x1F\<rparr>) [0x1B]) ''A''
     = Returned [0x1F, 3, 8] (init\<lparr>inshift := Some 0x1F, outshift := Some 0x1B\<rparr>)"
  by (simp add: tty_defs)

subsection \<open>Encoding with read and decoding with write\<close>


















section \<open>Properties of the SMS feed\<close>

subsection \<open>The queue of printed items\<close>

lemma markloop_spec:
  assumes "markloop q rs = Some (e, q', reqs, rs')"
  shows "\<exists>k. k \<le> length q \<and> k \<le> length rs
           \<and> reqs = map printed_request (take k q) \<and> rs' = drop k rs
           \<and> (e = None \<longrightarrow> k = length q \<and> q' = [] \<and> (\<forall>j<k. \<exists>r. rs ! j = Reply r))
           \<and> (\<forall>m. e = Some m \<longrightarrow> 0 < k \<and> rs ! (k - 1) = NetFail m
                  \<and> (\<forall>j<k - 1. \<exists>r. rs ! j = Reply r)
                  \<and> q' = drop k q @ [q ! (k - 1)])"
  using assms
proof (induction q rs arbitrary: e q' reqs rs' rule: markloop.induct)
  case (1 rs)
  then show ?case by (intro exI [of _ 0]) auto
next
  case (2 item q)
  then show ?case by simp
next
  case (3 item q message rs)
  then show ?case by (intro exI [of _ 1]) auto
next
  case (4 item q r rs)
  from "4.prems" obtain reqs0 where
    rec: "markloop q rs = Some (e, q', reqs0, rs')" and reqs: "reqs = printed_request item # reqs0"
    by (auto split: option.splits)
  from "4.IH" [OF rec] obtain k where
    k: "k \<le> length q" "k \<le> length rs" "reqs0 = map printed_request (take k q)" "rs' = drop k rs"
    and ok: "e = None \<longrightarrow> k = length q \<and> q' = [] \<and> (\<forall>j<k. \<exists>r. rs ! j = Reply r)"
    and bad: "\<forall>m. e = Some m \<longrightarrow> 0 < k \<and> rs ! (k - 1) = NetFail m
                  \<and> (\<forall>j<k - 1. \<exists>r. rs ! j = Reply r) \<and> q' = drop k q @ [q ! (k - 1)]"
    by blast
  show ?case
  proof (intro exI [of _ "Suc k"] conjI)
    show "Suc k \<le> length (item # q)" using k by simp
    show "Suc k \<le> length (Reply r # rs)" using k by simp
    show "reqs = map printed_request (take (Suc k) (item # q))" using k reqs by simp
    show "rs' = drop (Suc k) (Reply r # rs)" using k by simp
    show "e = None \<longrightarrow> Suc k = length (item # q) \<and> q' = []
            \<and> (\<forall>j<Suc k. \<exists>ra. (Reply r # rs) ! j = Reply ra)"
      using ok by (auto simp: nth_Cons')
    show "\<forall>m. e = Some m \<longrightarrow> 0 < Suc k \<and> (Reply r # rs) ! (Suc k - 1) = NetFail m
            \<and> (\<forall>j<Suc k - 1. \<exists>ra. (Reply r # rs) ! j = Reply ra)
            \<and> q' = drop (Suc k) (item # q) @ [(item # q) ! (Suc k - 1)]"
    proof (intro allI impI)
      fix m assume "e = Some m"
      with bad have b: "0 < k" "rs ! (k - 1) = NetFail m" "\<forall>j<k - 1. \<exists>r. rs ! j = Reply r"
        "q' = drop k q @ [q ! (k - 1)]" by auto
      from b(1) obtain k' where k': "k = Suc k'" by (cases k) auto
      have "\<forall>j<k. \<exists>ra. (Reply r # rs) ! j = Reply ra"
      proof (intro allI impI)
        fix j assume "j < k"
        then show "\<exists>ra. (Reply r # rs) ! j = Reply ra"
          using b(3) k' by (cases j) auto
      qed
      with b k' show "0 < Suc k \<and> (Reply r # rs) ! (Suc k - 1) = NetFail m
            \<and> (\<forall>j<Suc k - 1. \<exists>ra. (Reply r # rs) ! j = Reply ra)
            \<and> q' = drop (Suc k) (item # q) @ [(item # q) ! (Suc k - 1)]"
        by simp
    qed
  qed
qed

lemma markloop_total:
  "length q \<le> length rs \<Longrightarrow> markloop q rs \<noteq> None"
  by (induction q rs rule: markloop.induct) (auto split: option.splits)

lemma markitemsdone_queue:
  assumes "markitemsdone rs s = Some (b, s', rs')"
  shows "\<exists>k. k \<le> length (donequeue s) \<and> k \<le> length rs
           \<and> sent s' = sent s @ map printed_request (take k (donequeue s))
           \<and> rs' = drop k rs
           \<and> (b \<longrightarrow> k = length (donequeue s) \<and> (\<forall>j<k. \<exists>r. rs ! j = Reply r))
           \<and> (\<not> b \<longrightarrow> 0 < k \<and> (\<exists>m. rs ! (k - 1) = NetFail m)
                  \<and> (\<forall>j<k - 1. \<exists>r. rs ! j = Reply r)
                  \<and> donequeue s' = drop k (donequeue s) @ [donequeue s ! (k - 1)])
           \<and> (b \<longleftrightarrow> donequeue s' = [])
           \<and> lastserial s' = lastserial s"
proof -
  from assms obtain e q' reqs where
    ml: "markloop (donequeue s) rs = Some (e, q', reqs, rs')"
    and b: "b \<longleftrightarrow> e = None"
    and q': "donequeue s' = q'" and sent: "sent s' = sent s @ reqs"
    and ls: "lastserial s' = lastserial s"
    by (auto simp: markitemsdone_def logerror_def split: option.splits)
  from markloop_spec [OF ml] obtain k where
    k: "k \<le> length (donequeue s)" "k \<le> length rs"
      "reqs = map printed_request (take k (donequeue s))" "rs' = drop k rs"
    and ok: "e = None \<longrightarrow> k = length (donequeue s) \<and> q' = [] \<and> (\<forall>j<k. \<exists>r. rs ! j = Reply r)"
    and bad: "\<forall>m. e = Some m \<longrightarrow> 0 < k \<and> rs ! (k - 1) = NetFail m
                  \<and> (\<forall>j<k - 1. \<exists>r. rs ! j = Reply r)
                  \<and> q' = drop k (donequeue s) @ [donequeue s ! (k - 1)]"
    by blast
  show ?thesis
  proof (cases e)
    case None
    with b ok k q' sent ls show ?thesis by (intro exI [of _ k]) auto
  next
    case (Some m)
    with b bad k q' sent ls show ?thesis by (intro exI [of _ k]) auto
  qed
qed

lemma markitemsdone_returns:
  assumes "length (donequeue s) \<le> length rs"
  shows "\<exists>b s' rs'. markitemsdone rs s = Some (b, s', rs')"
proof -
  from markloop_total [OF assms] obtain e q reqs rs' where
    "markloop (donequeue s) rs = Some (e, q, reqs, rs')"
    by (cases "markloop (donequeue s) rs") auto
  then show ?thesis by (cases e) (auto simp: markitemsdone_def)
qed

text \<open>
  C5. Whenever the server answers every request it gets, \<open>markitemsdone\<close> returns. It sends the "printed" requests for the pending items in the order of
  the queue, first in first out. It stops at the first network failure: the requests sent
  are those for the first k items, all but the last of them answered, and the queue
  afterwards holds the items not yet tried followed by the item that failed (put back at
  the end). It returns true exactly when every item was acknowledged, and then the queue is
  empty; so it returns true if and only if the queue is empty afterwards. The cursor is not
  touched.
\<close>

theorem markitemsdone_fifo:
  "(length (donequeue s) \<le> length rs \<longrightarrow> (\<exists>b s' rs'. markitemsdone rs s = Some (b, s', rs')))
   \<and> (\<forall>b s' rs'. markitemsdone rs s = Some (b, s', rs') \<longrightarrow>
        (\<exists>k. k \<le> length (donequeue s) \<and> k \<le> length rs
           \<and> sent s' = sent s @ map printed_request (take k (donequeue s))
           \<and> rs' = drop k rs
           \<and> (b \<longrightarrow> k = length (donequeue s) \<and> (\<forall>j<k. \<exists>r. rs ! j = Reply r))
           \<and> (\<not> b \<longrightarrow> 0 < k \<and> (\<exists>m. rs ! (k - 1) = NetFail m)
                  \<and> (\<forall>j<k - 1. \<exists>r. rs ! j = Reply r)
                  \<and> donequeue s' = drop k (donequeue s) @ [donequeue s ! (k - 1)])
           \<and> (b \<longleftrightarrow> donequeue s' = [])
           \<and> lastserial s' = lastserial s))"
proof (intro conjI impI allI)
  assume "length (donequeue s) \<le> length rs"
  then show "\<exists>b s' rs'. markitemsdone rs s = Some (b, s', rs')"
    by (rule markitemsdone_returns)
next
  fix b s' rs'
  assume "markitemsdone rs s = Some (b, s', rs')"
  then show "\<exists>k. k \<le> length (donequeue s) \<and> k \<le> length rs
           \<and> sent s' = sent s @ map printed_request (take k (donequeue s))
           \<and> rs' = drop k rs
           \<and> (b \<longrightarrow> k = length (donequeue s) \<and> (\<forall>j<k. \<exists>r. rs ! j = Reply r))
           \<and> (\<not> b \<longrightarrow> 0 < k \<and> (\<exists>m. rs ! (k - 1) = NetFail m)
                  \<and> (\<forall>j<k - 1. \<exists>r. rs ! j = Reply r)
                  \<and> donequeue s' = drop k (donequeue s) @ [donequeue s ! (k - 1)])
           \<and> (b \<longleftrightarrow> donequeue s' = [])
           \<and> lastserial s' = lastserial s"
    by (rule markitemsdone_queue)
qed

text \<open>
  Three printed items, the second acknowledgement fails: two requests are sent, the third
  item stays queued, followed by the second one.
\<close>

theorem markitemsdone_fifo_witness:
  "markitemsdone [Reply [], NetFail ''timed out'', Reply []]
     (newfeed\<lparr>donequeue := [\<lparr>serial = ''5'', content = []\<rparr>, \<lparr>serial = ''6'', content = []\<rparr>, item7]\<rparr>)
     = Some (False,
         \<lparr>lastserial = - 1, donequeue = [item7, \<lparr>serial = ''6'', content = []\<rparr>],
          inqueue = [ErrorItem (Some ''Network error recording message as printed. (timed out).'')],
          sent = [\<lparr>cmd = ''printed'', arg1 = Some (PStr ''5''), arg2 = Some (PStr ''5'')\<rparr>,
                  \<lparr>cmd = ''printed'', arg1 = Some (PStr ''6''), arg2 = Some (PStr ''6'')\<rparr>]\<rparr>,
         [Reply []])
   \<and> (\<exists>k. k \<le> 3 \<and> [Reply []] = drop k [Reply [], NetFail ''timed out'', Reply []])"
proof -
  let ?rs = "[Reply [], NetFail ''timed out'', Reply []]"
  let ?s = "newfeed\<lparr>donequeue := [\<lparr>serial = ''5'', content = []\<rparr>, \<lparr>serial = ''6'', content = []\<rparr>, item7]\<rparr>"
  have r: "markitemsdone ?rs ?s
     = Some (False,
         \<lparr>lastserial = - 1, donequeue = [item7, \<lparr>serial = ''6'', content = []\<rparr>],
          inqueue = [ErrorItem (Some ''Network error recording message as printed. (timed out).'')],
          sent = [\<lparr>cmd = ''printed'', arg1 = Some (PStr ''5''), arg2 = Some (PStr ''5'')\<rparr>,
                  \<lparr>cmd = ''printed'', arg1 = Some (PStr ''6''), arg2 = Some (PStr ''6'')\<rparr>]\<rparr>,
         [Reply []])"
    by (simp add: markitemsdone_def logerror_def fetcherror_def printed_request_def
        doservercmd_fields_def newfeed_def item7_def)
  from markitemsdone_fifo [of ?s ?rs] r obtain k where
    k: "k \<le> length (donequeue ?s)" and d: "[Reply []] = drop k ?rs"
    by blast
  from k have "k \<le> 3" by (simp add: newfeed_def)
  with d have "\<exists>k. k \<le> 3 \<and> [Reply []] = drop k ?rs" by blast
  with r show ?thesis by blast
qed

subsection \<open>What the handling of a reply leaves untouched\<close>

lemma getfields_error: "getfields m flds = Inl e \<Longrightarrow> format_error e"
  by (induction m flds rule: getfields.induct) (auto simp: Let_def split: option.splits if_splits)

lemma handlemsg_frame:
  "handlemsg flds s = (e, s1) \<Longrightarrow>
     sent s1 = sent s \<and> lastserial s1 = lastserial s \<and> donequeue s1 = donequeue s"
  by (auto simp: handlemsg_def processmsg_def logerror_def Let_def split: option.splits if_splits)

lemma handletags_frame:
  "handletags ms n s = (e, n', s1) \<Longrightarrow>
     sent s1 = sent s \<and> lastserial s1 = lastserial s \<and> donequeue s1 = donequeue s"
proof (induction ms arbitrary: n s)
  case Nil
  then show ?case by simp
next
  case (Cons m ms)
  show ?case
  proof (cases "getfields m []")
    case (Inl a)
    with Cons.prems show ?thesis by simp
  next
    case (Inr flds)
    show ?thesis
    proof (cases "map_of flds ''serial''")
      case None
      with Inr Cons.prems show ?thesis by simp
    next
      case (Some ser)
      show ?thesis
      proof (cases "pyint ser")
        case None
        with Inr Some Cons.prems show ?thesis by simp
      next
        case (Some k)
        obtain e1 s2 where h: "handlemsg flds s = (e1, s2)" by (cases "handlemsg flds s")
        note f = handlemsg_frame [OF h]
        show ?thesis
        proof (cases e1)
          case None
          with Inr \<open>map_of flds ''serial'' = Some ser\<close> Some h Cons.prems
          have "handletags ms (max n k) s2 = (e, n', s1)" by simp
          from Cons.IH [OF this] f show ?thesis by simp
        next
          case (Some x)
          with Inr \<open>map_of flds ''serial'' = Some ser\<close> \<open>pyint ser = Some k\<close> h Cons.prems f
          show ?thesis by simp
        qed
      qed
    qed
  qed
qed

lemma handlereply_frame:
  assumes "handlereply r s = (res, s1)"
  shows "sent s1 = sent s \<and> lastserial s1 = lastserial s \<and> donequeue s1 = donequeue s"
proof -
  obtain e n s0 where t: "handletags r (- 1) s = (e, n, s0)" by (cases "handletags r (- 1) s")
  note f = handletags_frame [OF t]
  show ?thesis
  proof (cases e)
    case None
    with t assms f show ?thesis by (simp add: handlereply_def)
  next
    case (Some x)
    show ?thesis
    proof (cases "format_error x")
      case True
      obtain e2 s2 where h: "handlemsg [(''errormsg'', ''1''), (''smsbody'', exn_text x)] s0 = (e2, s2)"
        by (cases "handlemsg [(''errormsg'', ''1''), (''smsbody'', exn_text x)] s0")
      from handlemsg_frame [OF h] f h t Some True assms show ?thesis
        by (cases e2) (auto simp: handlereply_def)
    next
      case False
      with t Some assms f show ?thesis by (simp add: handlereply_def)
    qed
  qed
qed

lemma cmd_getnext: "cmd (getnext_request n) = ''getnext''"
  by (simp add: getnext_request_def doservercmd_fields_def)


lemma fetchloop_sent:
  "fetchloop rs s = Some (e, s', rs') \<Longrightarrow>
     \<exists>more. sent s' = sent s @ getnext_request (lastserial s) # more
        \<and> (\<forall>r \<in> set more. cmd r = ''getnext'') \<and> donequeue s' = donequeue s"
proof (induction rs s arbitrary: e s' rs' rule: fetchloop.induct)
  case (1 s)
  then show ?case by simp
next
  case (2 message rs s)
  then show ?case by auto
next
  case (3 replyxml rs s)
  let ?s0 = "s\<lparr>sent := sent s @ [getnext_request (lastserial s)]\<rparr>"
  obtain res s1 where h: "handlereply replyxml ?s0 = (res, s1)"
    by (cases "handlereply replyxml ?s0")
  from handlereply_frame [OF h]
  have f: "sent s1 = sent s @ [getnext_request (lastserial s)]" "lastserial s1 = lastserial s"
    "donequeue s1 = donequeue s" by simp_all
  show ?case
  proof (cases res)
    case (Raise x)
    with h "3.prems" f show ?thesis by auto
  next
    case (Return newserial)
    show ?thesis
    proof (cases "newserial \<noteq> 0 \<and> newserial > lastserial s1")
      case False
      with h Return "3.prems" f show ?thesis by auto
    next
      case True
      with h Return "3.prems"
      have rec: "fetchloop rs (s1\<lparr>lastserial := newserial\<rparr>) = Some (e, s', rs')" by simp
      from "3.IH" [OF h [symmetric] Return True rec] obtain more where
        "sent s' = sent (s1\<lparr>lastserial := newserial\<rparr>)
                     @ getnext_request (lastserial (s1\<lparr>lastserial := newserial\<rparr>)) # more"
        "\<forall>r \<in> set more. cmd r = ''getnext''"
        "donequeue s' = donequeue (s1\<lparr>lastserial := newserial\<rparr>)"
        by blast
      with f show ?thesis
        by (intro exI [of _ "getnext_request newserial # more"]) (simp add: cmd_getnext)
    qed
  qed
qed

lemma fetchloop_mono:
  "fetchloop rs s = Some (e, s', rs') \<Longrightarrow> lastserial s \<le> lastserial s'"
proof (induction rs s arbitrary: e s' rs' rule: fetchloop.induct)
  case (1 s)
  then show ?case by simp
next
  case (2 message rs s)
  then show ?case by auto
next
  case (3 replyxml rs s)
  let ?s0 = "s\<lparr>sent := sent s @ [getnext_request (lastserial s)]\<rparr>"
  obtain res s1 where h: "handlereply replyxml ?s0 = (res, s1)"
    by (cases "handlereply replyxml ?s0")
  from handlereply_frame [OF h] have f: "lastserial s1 = lastserial s" by simp
  show ?case
  proof (cases res)
    case (Raise x)
    with h "3.prems" f show ?thesis by auto
  next
    case (Return newserial)
    show ?thesis
    proof (cases "newserial \<noteq> 0 \<and> newserial > lastserial s1")
      case False
      with h Return "3.prems" f show ?thesis by auto
    next
      case True
      with h Return "3.prems"
      have rec: "fetchloop rs (s1\<lparr>lastserial := newserial\<rparr>) = Some (e, s', rs')" by simp
      from "3.IH" [OF h [symmetric] Return True rec] True f show ?thesis by simp
    qed
  qed
qed

lemmas feed_defs = fetchitems_def markitemsdone_def handlereply_def handlemsg_def processmsg_def
  logerror_def fetcherror_def getnext_request_def printed_request_def doservercmd_fields_def
  strip_def lower_def is_space_def pyint_def is_digit_def digits_value_def malformed_def
  newfeed_def msg_serial5_def msg_noserial_def item7_def Let_def

subsection \<open>Draining before fetching\<close>


lemma fetchitems_cursor_invariant:
  assumes "- 1 \<le> lastserial s" and "fetchitems idle rs s = Some (e, s', rs')"
  shows "- 1 \<le> lastserial s'"
proof -
  from assms(2) obtain b s1 rs1 where md: "markitemsdone rs s = Some (b, s1, rs1)"
    by (auto simp: fetchitems_def split: option.splits)
  from markitemsdone_queue [OF md] have ls: "lastserial s1 = lastserial s" by blast
  show ?thesis
  proof (cases b)
    case False
    with md assms ls show ?thesis by (simp add: fetchitems_def)
  next
    case True
    let ?s2 = "if idle then s1\<lparr>lastserial := - 1\<rparr> else s1"
    from True md assms(2) obtain e0 s3 where
      fl: "fetchloop rs1 ?s2 = Some (e0, s3, rs')" and s': "lastserial s' = lastserial s3"
      by (auto simp: fetchitems_def logerror_def split: option.splits exn.splits)
    from fetchloop_mono [OF fl] have "lastserial ?s2 \<le> lastserial s3" .
    moreover have "- 1 \<le> lastserial ?s2" using assms(1) ls by simp
    ultimately show ?thesis using s' by simp
  qed
qed




subsection \<open>A malformed reply\<close>

lemma handlereply_malformed:
  assumes "malformed m"
  shows "\<exists>msg. handlereply (m # ms) s = (Return (- 1), s\<lparr>inqueue := inqueue s @ [ErrorItem (Some msg)]\<rparr>)"
proof (cases "getfields m []")
  case (Inl e)
  from getfields_error [OF Inl] have "format_error e" .
  with Inl show ?thesis
    by (auto simp: handlereply_def handlemsg_def logerror_def)
next
  case (Inr flds)
  with assms have "map_of flds ''serial'' = None" by (simp add: malformed_def)
  with Inr show ?thesis
    by (auto simp: handlereply_def handlemsg_def logerror_def)
qed

lemma fetchloop_malformed:
  assumes "malformed m" and "- 1 \<le> lastserial s"
  shows "\<exists>msg. fetchloop (Reply (m # ms) # rs) s
           = Some (None, s\<lparr>sent := sent s @ [getnext_request (lastserial s)],
                            inqueue := inqueue s @ [ErrorItem (Some msg)]\<rparr>, rs)"
proof -
  let ?s0 = "s\<lparr>sent := sent s @ [getnext_request (lastserial s)]\<rparr>"
  from handlereply_malformed [OF assms(1), of ms ?s0] obtain msg where
    "handlereply (m # ms) ?s0 = (Return (- 1), ?s0\<lparr>inqueue := inqueue ?s0 @ [ErrorItem (Some msg)]\<rparr>)"
    by blast
  with assms(2) show ?thesis by (intro exI [of _ msg]) simp
qed

lemma markitemsdone_empty:
  "donequeue s = [] \<Longrightarrow> markitemsdone rs s = Some (True, s, rs)"
  by (simp add: markitemsdone_def)

lemma fetchitems_first_request:
  assumes "donequeue s = []" and "fetchitems False rs s = Some (e, s', rs')"
  shows "\<exists>more. sent s' = sent s @ getnext_request (lastserial s) # more"
proof -
  from assms obtain e0 s3 where
    fl: "fetchloop rs s = Some (e0, s3, rs')" and snt: "sent s' = sent s3"
    by (auto simp: fetchitems_def markitemsdone_empty logerror_def split: option.splits exn.splits)
  from fetchloop_sent [OF fl] snt show ?thesis by auto
qed

text \<open>
  C3, as amended. Let the cursor be at least -1, as it always is. If the first message of a
  reply is malformed (its parse fails before a serial number is read), then handling the
  reply queues one error item and leaves the cursor as it was before that reply, and the
  fetch loop of the cycle ends there. In particular, a cycle with nothing to acknowledge
  and a feed that is not idle, whose first reply is such a reply, ends with the cursor it
  started with, and the next such cycle begins by sending the same "getnext" request again.
  (The cursor at the end of a cycle is the one the earlier replies of the same cycle, or
  the reset of an idle feed, have set.)
\<close>

theorem malformed_reply_keeps_cursor:
  assumes "malformed m" and "- 1 \<le> lastserial s"
  shows "(\<exists>msg. fetchloop (Reply (m # ms) # rs) s
            = Some (None, s\<lparr>sent := sent s @ [getnext_request (lastserial s)],
                             inqueue := inqueue s @ [ErrorItem (Some msg)]\<rparr>, rs))
       \<and> (donequeue s = [] \<longrightarrow>
            (\<exists>s1. fetchitems False (Reply (m # ms) # rs) s = Some (None, s1, rs)
               \<and> lastserial s1 = lastserial s
               \<and> sent s1 = sent s @ [getnext_request (lastserial s)]
               \<and> (\<forall>rs2 e s2 rs3. fetchitems False rs2 s1 = Some (e, s2, rs3) \<longrightarrow>
                     (\<exists>more. sent s2 = sent s1 @ getnext_request (lastserial s) # more))))"
proof (intro conjI impI)
  show "\<exists>msg. fetchloop (Reply (m # ms) # rs) s
            = Some (None, s\<lparr>sent := sent s @ [getnext_request (lastserial s)],
                             inqueue := inqueue s @ [ErrorItem (Some msg)]\<rparr>, rs)"
    by (rule fetchloop_malformed [OF assms])
next
  assume q: "donequeue s = []"
  from fetchloop_malformed [OF assms, of ms rs] obtain msg where
    fl: "fetchloop (Reply (m # ms) # rs) s
            = Some (None, s\<lparr>sent := sent s @ [getnext_request (lastserial s)],
                             inqueue := inqueue s @ [ErrorItem (Some msg)]\<rparr>, rs)"
    by blast
  let ?s1 = "s\<lparr>sent := sent s @ [getnext_request (lastserial s)],
                inqueue := inqueue s @ [ErrorItem (Some msg)]\<rparr>"
  have c: "fetchitems False (Reply (m # ms) # rs) s = Some (None, ?s1, rs)"
    unfolding fetchitems_def markitemsdone_empty [OF q] using fl by simp
  have q1: "donequeue ?s1 = []" using q by simp
  have "\<forall>rs2 e s2 rs3. fetchitems False rs2 ?s1 = Some (e, s2, rs3) \<longrightarrow>
          (\<exists>more. sent s2 = sent ?s1 @ getnext_request (lastserial s) # more)"
    using fetchitems_first_request [OF q1] by auto
  with c show "\<exists>s1. fetchitems False (Reply (m # ms) # rs) s = Some (None, s1, rs)
               \<and> lastserial s1 = lastserial s
               \<and> sent s1 = sent s @ [getnext_request (lastserial s)]
               \<and> (\<forall>rs2 e s2 rs3. fetchitems False rs2 s1 = Some (e, s2, rs3) \<longrightarrow>
                     (\<exists>more. sent s2 = sent s1 @ getnext_request (lastserial s) # more))"
    by (intro exI [of _ ?s1]) simp
qed

text \<open>A reply holding one message without serial number, with the cursor at 5.\<close>

theorem malformed_reply_keeps_cursor_witness:
  "malformed msg_noserial \<and> - 1 \<le> lastserial (newfeed\<lparr>lastserial := 5\<rparr>)
   \<and> fetchloop [Reply [msg_noserial]] (newfeed\<lparr>lastserial := 5\<rparr>)
       = Some (None,
           \<lparr>lastserial = 5, donequeue = [],
            inqueue = [ErrorItem (Some ''Messaging server returned XML without a serial number'')],
            sent = [\<lparr>cmd = ''getnext'', arg1 = Some (PInt 6), arg2 = None\<rparr>]\<rparr>,
           [])
   \<and> (\<exists>msg. fetchloop [Reply [msg_noserial]] (newfeed\<lparr>lastserial := 5\<rparr>)
         = Some (None,
             newfeed\<lparr>lastserial := 5,
                     sent := sent (newfeed\<lparr>lastserial := 5\<rparr>)
                               @ [getnext_request (lastserial (newfeed\<lparr>lastserial := 5\<rparr>))],
                     inqueue := inqueue (newfeed\<lparr>lastserial := 5\<rparr>) @ [ErrorItem (Some msg)]\<rparr>,
             []))"
proof -
  have m: "malformed msg_noserial"
    by (simp add: feed_defs)
  have c: "- 1 \<le> lastserial (newfeed\<lparr>lastserial := 5\<rparr>)"
    by simp
  have r: "fetchloop [Reply [msg_noserial]] (newfeed\<lparr>lastserial := 5\<rparr>)
       = Some (None,
           \<lparr>lastserial = 5, donequeue = [],
            inqueue = [ErrorItem (Some ''Messaging server returned XML without a serial number'')],
            sent = [\<lparr>cmd = ''getnext'', arg1 = Some (PInt 6), arg2 = None\<rparr>]\<rparr>,
           [])"
    by (simp add: feed_defs)
  from malformed_reply_keeps_cursor [OF m c, of "[]" "[]"]
  have "\<exists>msg. fetchloop [Reply [msg_noserial]] (newfeed\<lparr>lastserial := 5\<rparr>)
         = Some (None,
             newfeed\<lparr>lastserial := 5,
                     sent := sent (newfeed\<lparr>lastserial := 5\<rparr>)
                               @ [getnext_request (lastserial (newfeed\<lparr>lastserial := 5\<rparr>))],
                     inqueue := inqueue (newfeed\<lparr>lastserial := 5\<rparr>) @ [ErrorItem (Some msg)]\<rparr>,
             [])"
    by simp
  with m c r show ?thesis by blast
qed

text \<open>
  C3 as stated fails on the code. A cycle on a new feed (cursor -1, nothing to acknowledge,
  not idle) gets a reply with message 5 and then a reply whose only message has no serial
  number. The cycle has met a malformed reply, and the cursor after the cycle is 5, not the
  -1 from before the cycle: the good reply of the same cycle has advanced it. The same
  happens when the two messages come in one reply: its parse fails at the second message,
  \<open>handlereply\<close> returns the serial number 5 read before the failure, and the cursor
  advances to 5.
\<close>

theorem malformed_reply_counterexample:
  "malformed msg_noserial \<and> lastserial newfeed = - 1
   \<and> fetchitems False [Reply [msg_serial5], Reply [msg_noserial]] newfeed
     = Some (None,
         \<lparr>lastserial = 5, donequeue = [],
          inqueue = [SMS \<lparr>serial = ''5'',
                          content = [(''smsbody'', ''HI''), (''rcvtime'', ''2015-06-01 12:00:00''),
                                     (''errormsg'', ''0''), (''serial'', ''5'')]\<rparr>,
                     ErrorItem (Some ''Messaging server returned XML without a serial number'')],
          sent = [\<lparr>cmd = ''getnext'', arg1 = None, arg2 = None\<rparr>,
                  \<lparr>cmd = ''getnext'', arg1 = Some (PInt 6), arg2 = None\<rparr>]\<rparr>,
         [])
   \<and> handlereply [msg_serial5, msg_noserial] newfeed
     = (Return 5,
        newfeed\<lparr>inqueue :=
          [SMS \<lparr>serial = ''5'',
                content = [(''smsbody'', ''HI''), (''rcvtime'', ''2015-06-01 12:00:00''),
                           (''errormsg'', ''0''), (''serial'', ''5'')]\<rparr>,
           ErrorItem (Some ''Messaging server returned XML without a serial number'')]\<rparr>)
   \<and> fetchitems False [Reply [msg_serial5, msg_noserial], Reply []] newfeed
     = Some (None,
         \<lparr>lastserial = 5, donequeue = [],
          inqueue = [SMS \<lparr>serial = ''5'',
                          content = [(''smsbody'', ''HI''), (''rcvtime'', ''2015-06-01 12:00:00''),
                                     (''errormsg'', ''0''), (''serial'', ''5'')]\<rparr>,
                     ErrorItem (Some ''Messaging server returned XML without a serial number'')],
          sent = [\<lparr>cmd = ''getnext'', arg1 = None, arg2 = None\<rparr>,
                  \<lparr>cmd = ''getnext'', arg1 = Some (PInt 6), arg2 = None\<rparr>]\<rparr>,
         [])"
  by (simp add: feed_defs)

subsection \<open>The reset of an idle feed\<close>




section \<open>Properties of the weather report parser\<close>

text \<open>
  A failure that \<open>parse\<close> foresees is recorded: a document without the \<open>dwml\<close> tag makes
  \<open>_find\<close> raise \<open>RuntimeError\<close>, \<open>parse\<close> returns normally with the text in \<open>err\<close>, and
  \<open>asString\<close> renders it as an error line.
\<close>

lemma parse_records_runtime_error:
  "nwsxml_parse lib html_page s =
     (None,
      s\<lparr>err := Some ''Unable to interpret weather data: NWS weather report XML format unexpected. Did not find dwml inside XML tag html.''\<rparr>)
   \<and> asString_error (snd (nwsxml_parse lib html_page s)) =
       Some ''ERROR: Unable to interpret weather data: NWS weather report XML format unexpected. Did not find dwml inside XML tag html.''"
  by (simp add: nwsxml_parse_def parseheader_def html_page_def element_find_def parse_except_def
      asString_error_def)

text \<open>
  C7. The claim is that \<open>parse\<close> never raises. On a report whose creation date ends in Z an
  exception leaves \<open>parse\<close>, whatever \<open>strptime\<close> does with the date: \<open>ValueError\<close> if it
  rejects the first 19 characters, and otherwise the \<open>UnboundLocalError\<close> of the Zulu
  branch of \<open>parseisotime\<close>. Neither is among the exceptions that \<open>parse\<close> catches, and
  \<open>err\<close> is not set.
\<close>

theorem parse_raises_on_zulu_time:
  "nwsxml_parse lib zulu_report s =
     (Some (if strptime lib ''2015-06-01T12:00:00'' = None then ValueError
            else UnboundLocalError ''local variable offset referenced before assignment''), s)"
  by (simp add: nwsxml_parse_def parseheader_def zulu_report_def element_find_def parseisotime_def
      strip_def is_space_def upper_def parse_except_def Let_def split: option.splits)

end
